theory Spec2Isabelle
  imports Complex_Main
begin

section \<open>Arrays\<close>

text \<open>
  The module \<^verbatim>\<open>skimage/restoration/uft.py\<close> works on numpy arrays. An array is modelled by
  its shape and by the element stored at each multi-index; only the multi-indices inside
  the shape are elements of the array. \<^verbatim>\<open>float64\<close> is modelled by \<open>real\<close> and
  \<^verbatim>\<open>complex128\<close> by \<open>complex\<close>, so rounding is not part of the model.
\<close>

datatype error = IndexError | ValueError

record 'a ndarray =
  shape :: "nat list"
  item :: "nat list \<Rightarrow> 'a"

definition ndim :: "'a ndarray \<Rightarrow> nat" where
  "ndim a = length (shape a)"





text \<open>\<^verbatim>\<open>np.ones(shape)\<close> and \<^verbatim>\<open>np.zeros(shape)\<close> (both \<^verbatim>\<open>float64\<close>).\<close>

definition np_ones :: "nat list \<Rightarrow> real ndarray" where
  "np_ones s = \<lparr>shape = s, item = (\<lambda>idx. 1)\<rparr>"

definition np_zeros :: "nat list \<Rightarrow> real ndarray" where
  "np_zeros s = \<lparr>shape = s, item = (\<lambda>idx. 0)\<rparr>"

text \<open>The cast of a real array to \<^verbatim>\<open>complex128\<close>, and \<^verbatim>\<open>np.real\<close> kept as a complex array.\<close>

definition astype_complex :: "real ndarray \<Rightarrow> complex ndarray" where
  "astype_complex a = \<lparr>shape = shape a, item = (\<lambda>idx. complex_of_real (item a idx))\<rparr>"

definition real_part :: "complex ndarray \<Rightarrow> complex ndarray" where
  "real_part a = \<lparr>shape = shape a, item = (\<lambda>idx. complex_of_real (Re (item a idx)))\<rparr>"

subsection \<open>Python ranges and slices\<close>

text \<open>\<^verbatim>\<open>range(a, b)\<close>, and the slice \<^verbatim>\<open>xs[k:]\<close> with Python's reading of a negative \<open>k\<close>.\<close>

definition py_range :: "int \<Rightarrow> int \<Rightarrow> int list" where
  "py_range a b = [a..b - 1]"

definition py_slice_from :: "'a list \<Rightarrow> int \<Rightarrow> 'a list" where
  "py_slice_from xs k =
     (if k < 0 then drop (nat (int (length xs) + k)) xs else drop (nat k) xs)"

text \<open>\<^verbatim>\<open>np.sqrt(np.prod(shape_slice))\<close>.\<close>

definition sqrt_prod :: "nat list \<Rightarrow> real" where
  "sqrt_prod s = sqrt (real (prod_list s))"

section \<open>The FFT collaborator\<close>

text \<open>
  \<^verbatim>\<open>np.fft\<close> is not part of the repository. It is modelled by the discrete Fourier transform
  it documents, computed axis by axis in the order numpy's \<^verbatim>\<open>_raw_fftnd\<close> uses. The module
  always calls it with \<^verbatim>\<open>axes=range(-dim, 0)\<close>, so no axis is repeated and the length
  \<^verbatim>\<open>s[ii]\<close> numpy passes along is the current length of that axis.
\<close>

text \<open>\<^verbatim>\<open>take(a.shape, axes)\<close> in \<^verbatim>\<open>_cook_nd_args\<close>: every axis must exist.\<close>

definition cook_axes :: "nat \<Rightarrow> int list \<Rightarrow> error + nat list" where
  "cook_axes r axes =
     (if list_all (\<lambda>a. - int r \<le> a \<and> a < int r) axes
      then Inr (map (\<lambda>a. nat (if a < 0 then a + int r else a)) axes)
      else Inl IndexError)"

text \<open>The twiddle factor \<open>exp (sg * 2 * pi * i * k * m / n)\<close>.\<close>

definition twiddle :: "real \<Rightarrow> nat \<Rightarrow> nat \<Rightarrow> nat \<Rightarrow> complex" where
  "twiddle sg n k m = cis (sg * (2 * pi * real k * real m / real n))"

text \<open>\<^verbatim>\<open>np.fft.fft(a, axis=ax)\<close> and \<^verbatim>\<open>np.fft.ifft(a, axis=ax)\<close> along an existing axis.\<close>

definition fft_axis :: "nat \<Rightarrow> complex ndarray \<Rightarrow> error + complex ndarray" where
  "fft_axis ax a =
     (let n = shape a ! ax in
      if n < 1 then Inl ValueError
      else Inr \<lparr>shape = shape a,
                item = (\<lambda>idx. \<Sum>m<n. item a (idx[ax := m]) * twiddle (- 1) n (idx ! ax) m)\<rparr>)"

definition ifft_axis :: "nat \<Rightarrow> complex ndarray \<Rightarrow> error + complex ndarray" where
  "ifft_axis ax a =
     (let n = shape a ! ax in
      if n < 1 then Inl ValueError
      else Inr \<lparr>shape = shape a,
                item = (\<lambda>idx. (\<Sum>m<n. item a (idx[ax := m]) * twiddle 1 n (idx ! ax) m)
                               / of_nat n)\<rparr>)"

text \<open>\<^verbatim>\<open>np.fft.rfft(a, axis=ax)\<close>: real input, the first \<open>n div 2 + 1\<close> coefficients.\<close>

definition rfft_axis :: "nat \<Rightarrow> real ndarray \<Rightarrow> error + complex ndarray" where
  "rfft_axis ax a =
     (let n = shape a ! ax in
      if n < 1 then Inl ValueError
      else Inr \<lparr>shape = (shape a)[ax := n div 2 + 1],
                item = (\<lambda>idx. \<Sum>m<n. complex_of_real (item a (idx[ax := m]))
                                        * twiddle (- 1) n (idx ! ax) m)\<rparr>)"

text \<open>
  \<^verbatim>\<open>np.fft.ifft(a, n, axis)\<close> with an explicit length: the length must be positive and the
  axis must exist; the input is cropped or padded with zeros to \<open>n\<close> entries along the
  axis first.
\<close>

definition normalize_axis :: "nat \<Rightarrow> int \<Rightarrow> error + nat" where
  "normalize_axis r axis =
     (if - int r \<le> axis \<and> axis < int r
      then Inr (nat (if axis < 0 then axis + int r else axis))
      else Inl IndexError)"

definition resize_axis :: "nat \<Rightarrow> nat \<Rightarrow> complex ndarray \<Rightarrow> complex ndarray" where
  "resize_axis ax n a =
     \<lparr>shape = (shape a)[ax := n],
      item = (\<lambda>idx. if idx ! ax < shape a ! ax then item a idx else 0)\<rparr>"

definition ifft_n :: "nat \<Rightarrow> int \<Rightarrow> complex ndarray \<Rightarrow> error + complex ndarray" where
  "ifft_n n axis a =
     (if n < 1 then Inl ValueError
      else case normalize_axis (ndim a) axis of
             Inl e \<Rightarrow> Inl e
           | Inr ax \<Rightarrow> ifft_axis ax (resize_axis ax n a))"

text \<open>
  \<^verbatim>\<open>np.fft.irfft(a, n, axis)\<close>: the real signal of length \<open>n\<close> whose spectrum has
  the given first \<open>n div 2 + 1\<close> coefficients (cropped or padded with zeros) and is
  Hermitian-symmetric.
\<close>

definition irfft_n :: "nat \<Rightarrow> int \<Rightarrow> complex ndarray \<Rightarrow> error + real ndarray" where
  "irfft_n n axis a =
     (if n < 1 then Inl ValueError
      else case normalize_axis (ndim a) axis of
             Inl e \<Rightarrow> Inl e
           | Inr ax \<Rightarrow>
               let c = resize_axis ax (n div 2 + 1) a in
               Inr \<lparr>shape = (shape a)[ax := n],
                    item = (\<lambda>idx.
                      (Re (item c (idx[ax := 0]))
                       + (\<Sum>k = 1..<(n + 1) div 2.
                            2 * Re (item c (idx[ax := k]) * twiddle 1 n (idx ! ax) k))
                       + (if even n
                          then Re (item c (idx[ax := n div 2])) * (- 1) ^ (idx ! ax) else 0))
                      / real n)\<rparr>)"

text \<open>The loop of \<^verbatim>\<open>_raw_fftnd\<close>: one transform after the other, stopping at an error.\<close>

fun raw_fftnd :: "(nat \<Rightarrow> 'a \<Rightarrow> error + 'a) \<Rightarrow> nat list \<Rightarrow> 'a \<Rightarrow> error + 'a" where
  "raw_fftnd f [] a = Inr a"
| "raw_fftnd f (ax # axs) a =
     (case f ax a of Inl e \<Rightarrow> Inl e | Inr b \<Rightarrow> raw_fftnd f axs b)"

text \<open>\<^verbatim>\<open>np.fft.fftn(a, axes=axes)\<close> and \<^verbatim>\<open>np.fft.ifftn(a, axes=axes)\<close>: the last axis first.\<close>

definition np_fft_fftn :: "complex ndarray \<Rightarrow> int list \<Rightarrow> error + complex ndarray" where
  "np_fft_fftn a axes =
     (case cook_axes (ndim a) axes of
        Inl e \<Rightarrow> Inl e
      | Inr axs \<Rightarrow> raw_fftnd fft_axis (rev axs) a)"

definition np_fft_ifftn :: "complex ndarray \<Rightarrow> int list \<Rightarrow> error + complex ndarray" where
  "np_fft_ifftn a axes =
     (case cook_axes (ndim a) axes of
        Inl e \<Rightarrow> Inl e
      | Inr axs \<Rightarrow> raw_fftnd ifft_axis (rev axs) a)"

text \<open>
  \<^verbatim>\<open>np.fft.rfftn(a, axes=axes)\<close>: \<^verbatim>\<open>rfft\<close> along \<^verbatim>\<open>axes[-1]\<close> (which an empty
  \<^verbatim>\<open>axes\<close> does not have), then \<^verbatim>\<open>fft\<close> along the other axes in order.
\<close>

definition np_fft_rfftn :: "real ndarray \<Rightarrow> int list \<Rightarrow> error + complex ndarray" where
  "np_fft_rfftn a axes =
     (case cook_axes (ndim a) axes of
        Inl e \<Rightarrow> Inl e
      | Inr axs \<Rightarrow>
          if axs = [] then Inl IndexError
          else (case rfft_axis (last axs) a of
                  Inl e \<Rightarrow> Inl e
                | Inr b \<Rightarrow> raw_fftnd fft_axis (butlast axs) b))"

text \<open>
  \<^verbatim>\<open>np.fft.irfftn(a, s, axes=axes)\<close>: \<^verbatim>\<open>ifft\<close> along the axes but the last, in
  order, then \<^verbatim>\<open>irfft\<close> along \<^verbatim>\<open>axes[-1]\<close>. Without \<^verbatim>\<open>s\<close> the lengths are those
  of the input (every axis must exist), the last one \<open>2 * (m - 1)\<close>; with \<^verbatim>\<open>s\<close>
  there must be one length for each axis.
\<close>

fun raw_ifftnd_n :: "(nat \<times> int) list \<Rightarrow> complex ndarray \<Rightarrow> error + complex ndarray" where
  "raw_ifftnd_n [] a = Inr a"
| "raw_ifftnd_n ((n, axis) # rest) a =
     (case ifft_n n axis a of Inl e \<Rightarrow> Inl e | Inr b \<Rightarrow> raw_ifftnd_n rest b)"

definition irfftn_lengths :: "complex ndarray \<Rightarrow> nat list \<Rightarrow> int list \<Rightarrow> error + real ndarray" where
  "irfftn_lengths a lens axes =
     (case raw_ifftnd_n (zip (butlast lens) (butlast axes)) a of
        Inl e \<Rightarrow> Inl e
      | Inr b \<Rightarrow> irfft_n (last lens) (last axes) b)"

definition np_fft_irfftn ::
  "complex ndarray \<Rightarrow> nat list option \<Rightarrow> int list \<Rightarrow> error + real ndarray" where
  "np_fft_irfftn a s axes =
     (case s of
        None \<Rightarrow>
          (case cook_axes (ndim a) axes of
             Inl e \<Rightarrow> Inl e
           | Inr axs \<Rightarrow>
               if axs = [] then Inl IndexError
               else irfftn_lengths a
                      (butlast (map ((!) (shape a)) axs) @ [(shape a ! last axs - 1) * 2]) axes)
      | Some lens \<Rightarrow>
          if length lens \<noteq> length axes then Inl ValueError
          else if axes = [] then Inl IndexError
          else irfftn_lengths a lens axes)"

section \<open>Unitary transforms\<close>

text \<open>
  \<^verbatim>\<open>outarray / c\<close> and \<^verbatim>\<open>outarray * c\<close> for an array and a real scalar, in exact
  arithmetic: the quotient and the product are not rounded. The rounded operations of
  \<^verbatim>\<open>float64\<close> are \<open>divide_scalar_float64\<close> and \<open>times_scalar_float64\<close> below.
\<close>

definition divide_scalar :: "'a::real_div_algebra ndarray \<Rightarrow> real \<Rightarrow> 'a ndarray" where
  "divide_scalar a c = \<lparr>shape = shape a, item = (\<lambda>idx. item a idx / of_real c)\<rparr>"

definition times_scalar :: "'a::real_algebra_1 ndarray \<Rightarrow> real \<Rightarrow> 'a ndarray" where
  "times_scalar a c = \<lparr>shape = shape a, item = (\<lambda>idx. item a idx * of_real c)\<rparr>"

text \<open>\<^verbatim>\<open>if dim is None: dim = inarray.ndim\<close>.\<close>

definition default_dim :: "'a ndarray \<Rightarrow> int option \<Rightarrow> int" where
  "default_dim inarray dim_arg = (case dim_arg of None \<Rightarrow> int (ndim inarray) | Some d \<Rightarrow> d)"

definition ufftn :: "complex ndarray \<Rightarrow> int option \<Rightarrow> error + complex ndarray" where
  "ufftn inarray dim_arg =
     (let d = default_dim inarray dim_arg in
      case np_fft_fftn inarray (py_range (- d) 0) of
        Inl e \<Rightarrow> Inl e
      | Inr outarray \<Rightarrow>
          Inr (divide_scalar outarray (sqrt_prod (py_slice_from (shape inarray) (- d)))))"

definition uifftn :: "complex ndarray \<Rightarrow> int option \<Rightarrow> error + complex ndarray" where
  "uifftn inarray dim_arg =
     (let d = default_dim inarray dim_arg in
      case np_fft_ifftn inarray (py_range (- d) 0) of
        Inl e \<Rightarrow> Inl e
      | Inr outarray \<Rightarrow>
          Inr (times_scalar outarray (sqrt_prod (py_slice_from (shape inarray) (- d)))))"

definition urfftn :: "real ndarray \<Rightarrow> int option \<Rightarrow> error + complex ndarray" where
  "urfftn inarray dim_arg =
     (let d = default_dim inarray dim_arg in
      case np_fft_rfftn inarray (py_range (- d) 0) of
        Inl e \<Rightarrow> Inl e
      | Inr outarray \<Rightarrow>
          Inr (divide_scalar outarray (sqrt_prod (py_slice_from (shape inarray) (- d)))))"

definition uirfftn ::
  "complex ndarray \<Rightarrow> int option \<Rightarrow> nat list option \<Rightarrow> error + real ndarray" where
  "uirfftn inarray dim_arg shp =
     (let d = default_dim inarray dim_arg in
      case np_fft_irfftn inarray shp (py_range (- d) 0) of
        Inl e \<Rightarrow> Inl e
      | Inr outarray \<Rightarrow>
          Inr (times_scalar outarray (sqrt_prod (py_slice_from (shape outarray) (- d)))))"

definition ufft2 :: "complex ndarray \<Rightarrow> error + complex ndarray" where
  "ufft2 inarray = ufftn inarray (Some 2)"

definition uifft2 :: "complex ndarray \<Rightarrow> error + complex ndarray" where
  "uifft2 inarray = uifftn inarray (Some 2)"

definition urfft2 :: "real ndarray \<Rightarrow> error + complex ndarray" where
  "urfft2 inarray = urfftn inarray (Some 2)"

definition uirfft2 :: "complex ndarray \<Rightarrow> nat list option \<Rightarrow> error + real ndarray" where
  "uirfft2 inarray shp = uirfftn inarray (Some 2) shp"

section \<open>The scalings in float64\<close>

text \<open>
  \<open>divide_scalar\<close> and \<open>times_scalar\<close> divide and multiply without rounding; the arrays
  of the module hold \<^verbatim>\<open>float64\<close> numbers, and there every operation is rounded. The
  rounding of a real number to the nearest \<^verbatim>\<open>float64\<close>: 53 significant bits, a tie goes
  to the even neighbour. The range of the exponent is not modelled (no overflow, no
  subnormal numbers).
\<close>

definition round_half_even :: "real \<Rightarrow> int" where
  "round_half_even r =
     (let f = \<lfloor>r\<rfloor> in
      if r - of_int f < 1 / 2 then f
      else if 1 / 2 < r - of_int f then f + 1
      else if even f then f else f + 1)"

definition float64 :: "real \<Rightarrow> real" where
  "float64 x =
     (if x = 0 then 0
      else let ulp = 2 powr (of_int \<lfloor>log 2 \<bar>x\<bar>\<rfloor> - 52)
           in sgn x * (of_int (round_half_even (\<bar>x\<bar> / ulp)) * ulp))"






section \<open>The quadratic norm of images in Fourier space\<close>

text \<open>Sequencing of steps that may raise.\<close>

definition and_then :: "error + 'a \<Rightarrow> ('a \<Rightarrow> error + 'b) \<Rightarrow> error + 'b" where
  "and_then m f = (case m of Inl e \<Rightarrow> Inl e | Inr v \<Rightarrow> f v)"

text \<open>\<^verbatim>\<open>np.abs(a)**2\<close>.\<close>

definition abs_squared :: "complex ndarray \<Rightarrow> real ndarray" where
  "abs_squared a = \<lparr>shape = shape a, item = (\<lambda>idx. (cmod (item a idx))\<^sup>2)\<rparr>"

text \<open>\<^verbatim>\<open>np.sum(a, axis=-1)\<close>: the last axis is summed away; a 0-d array has none.\<close>

definition sum_last_axis :: "real ndarray \<Rightarrow> error + real ndarray" where
  "sum_last_axis a =
     (if shape a = [] then Inl IndexError
      else Inr \<lparr>shape = butlast (shape a),
                item = (\<lambda>idx. \<Sum>j<last (shape a). item a (idx @ [j]))\<rparr>)"

text \<open>\<^verbatim>\<open>a[..., 0]\<close>: index 0 of the last axis, which must exist.\<close>

definition index_last0 :: "'a ndarray \<Rightarrow> error + 'a ndarray" where
  "index_last0 a =
     (if shape a = [] then Inl IndexError
      else if last (shape a) = 0 then Inl IndexError
      else Inr \<lparr>shape = butlast (shape a), item = (\<lambda>idx. item a (idx @ [0]))\<rparr>)"

text \<open>
  \<^verbatim>\<open>c * a\<close> for a scalar, and \<^verbatim>\<open>a - b\<close> for two arrays of one shape (the only
  case the module has: both operands have the shape of the batch axes).
\<close>

definition scalar_times :: "real \<Rightarrow> real ndarray \<Rightarrow> real ndarray" where
  "scalar_times c a = \<lparr>shape = shape a, item = (\<lambda>idx. c * item a idx)\<rparr>"

definition np_subtract :: "real ndarray \<Rightarrow> real ndarray \<Rightarrow> error + real ndarray" where
  "np_subtract a b =
     (if shape a = shape b
      then Inr \<lparr>shape = shape a, item = (\<lambda>idx. item a idx - item b idx)\<rparr>
      else Inl ValueError)"

definition image_quad_norm :: "complex ndarray \<Rightarrow> error + real ndarray" where
  "image_quad_norm inarray =
     (if ndim inarray < 2 then Inl IndexError
      else if last (shape inarray) \<noteq> last (butlast (shape inarray)) then
        and_then (and_then (sum_last_axis (abs_squared inarray)) sum_last_axis) (\<lambda>total.
        and_then (index_last0 inarray) (\<lambda>first_column.
        and_then (sum_last_axis (abs_squared first_column)) (\<lambda>first_total.
        np_subtract (scalar_times 2 total) first_total)))
      else and_then (sum_last_axis (abs_squared inarray)) sum_last_axis)"

section \<open>From an impulse response to a transfer function\<close>

text \<open>
  \<^verbatim>\<open>irpadded[tuple([slice(0, s) for s in imp_resp.shape])] = imp_resp\<close>. There is one slice
  for each axis of \<^verbatim>\<open>imp_resp\<close>, which \<^verbatim>\<open>irpadded\<close> must have; a slice stops at the end of
  its axis; the value is broadcast to the selected region (aligned at the last axis, an
  extent of 1 repeated); and the buffer is \<^verbatim>\<open>float64\<close>, so the cast keeps the real part.
\<close>

definition setitem_origin :: "real ndarray \<Rightarrow> complex ndarray \<Rightarrow> error + real ndarray" where
  "setitem_origin irpadded imp_resp =
     (let k = ndim imp_resp; t = shape irpadded; s = shape imp_resp in
      if length t < k then Inl IndexError
      else
        let region = map2 min s (take k t) @ drop k t; off = length region - k in
        if \<not> list_all2 (\<lambda>se re. se = re \<or> se = 1) s (drop off region) then Inl ValueError
        else Inr \<lparr>shape = t,
                  item = (\<lambda>idx.
                    if list_all2 (<) (take k idx) (take k region)
                    then Re (item imp_resp (map2 (\<lambda>se j. if se = 1 then 0 else j) s (drop off idx)))
                    else item irpadded idx)\<rparr>)"

text \<open>
  \<^verbatim>\<open>np.roll(a, shift, axis)\<close>: the element at position \<open>j\<close> moves to position
  \<open>(j + shift) mod n\<close>; an empty axis is left as it is.
\<close>

definition np_roll :: "'a ndarray \<Rightarrow> int \<Rightarrow> nat \<Rightarrow> error + 'a ndarray" where
  "np_roll a shift axis =
     (if ndim a \<le> axis then Inl IndexError
      else let n = shape a ! axis in
        if n = 0 then Inr a
        else Inr \<lparr>shape = shape a,
                  item = (\<lambda>idx. item a (idx[axis := nat ((int (idx ! axis) - shift) mod int n)]))\<rparr>)"

text \<open>
  The loop \<^verbatim>\<open>for axis, axis_size in enumerate(imp_resp.shape)\<close>; \<open>lo\<close> is
  \<^verbatim>\<open>imp_resp.ndim - dim\<close> and the shift is \<^verbatim>\<open>-int(np.floor(axis_size / 2))\<close>.
\<close>

fun roll_axes :: "(nat \<times> nat) list \<Rightarrow> int \<Rightarrow> real ndarray \<Rightarrow> error + real ndarray" where
  "roll_axes [] lo irpadded = Inr irpadded"
| "roll_axes ((axis, axis_size) # rest) lo irpadded =
     (if lo \<le> int axis
      then (case np_roll irpadded (- int (axis_size div 2)) axis of
              Inl e \<Rightarrow> Inl e
            | Inr rolled \<Rightarrow> roll_axes rest lo rolled)
      else roll_axes rest lo irpadded)"

text \<open>\<^verbatim>\<open>if not dim: dim = imp_resp.ndim\<close>: \<^verbatim>\<open>None\<close> and 0 both give the rank.\<close>

definition ir2tf_dim :: "'a ndarray \<Rightarrow> int option \<Rightarrow> int" where
  "ir2tf_dim imp_resp dim_arg =
     (case dim_arg of
        None \<Rightarrow> int (ndim imp_resp)
      | Some d \<Rightarrow> if d = 0 then int (ndim imp_resp) else d)"

text \<open>The padded and rolled buffer \<^verbatim>\<open>irpadded\<close>, as it is when the loop has ended.\<close>

definition ir2tf_irpadded ::
  "complex ndarray \<Rightarrow> nat list \<Rightarrow> int option \<Rightarrow> error + real ndarray" where
  "ir2tf_irpadded imp_resp shp dim_arg =
     (case setitem_origin (np_zeros shp) imp_resp of
        Inl e \<Rightarrow> Inl e
      | Inr irpadded \<Rightarrow>
          roll_axes (enumerate 0 (shape imp_resp))
            (int (ndim imp_resp) - ir2tf_dim imp_resp dim_arg) irpadded)"

definition ir2tf ::
  "complex ndarray \<Rightarrow> nat list \<Rightarrow> int option \<Rightarrow> bool \<Rightarrow> error + complex ndarray" where
  "ir2tf imp_resp shp dim_arg is_real =
     (case ir2tf_irpadded imp_resp shp dim_arg of
        Inl e \<Rightarrow> Inl e
      | Inr irpadded \<Rightarrow>
          if is_real
          then np_fft_rfftn irpadded (py_range (- ir2tf_dim imp_resp dim_arg) 0)
          else np_fft_fftn (astype_complex irpadded)
                 (py_range (- ir2tf_dim imp_resp dim_arg) 0))"

section \<open>Concrete inputs\<close>

text \<open>\<^verbatim>\<open>np.ones((2, 2))\<close>, the impulse response of the docstring of \<^verbatim>\<open>ir2tf\<close>.\<close>

definition ones22 :: "complex ndarray" where
  "ones22 = astype_complex (np_ones [2, 2])"

text \<open>\<^verbatim>\<open>np.ones((2, 3))\<close>, an image that is not square.\<close>

definition ones23 :: "complex ndarray" where
  "ones23 = astype_complex (np_ones [2, 3])"

text \<open>\<^verbatim>\<open>np.array([1., 2., 3.])\<close>, an impulse response of odd length.\<close>

definition ir123 :: "complex ndarray" where
  "ir123 = \<lparr>shape = [3], item = (\<lambda>idx. of_nat (idx ! 0 + 1))\<rparr>"

text \<open>\<^verbatim>\<open>np.ones((3, 2, 2))\<close>, three impulse responses of two axes.\<close>

definition ones322 :: "complex ndarray" where
  "ones322 = astype_complex (np_ones [3, 2, 2])"


text \<open>\<^verbatim>\<open>np.array([1., 2.])\<close>, an impulse response of even length.\<close>

definition ir12 :: "complex ndarray" where
  "ir12 = \<lparr>shape = [2], item = (\<lambda>idx. of_nat (idx ! 0 + 1))\<rparr>"

text \<open>The real image of shape \<open>(4, 4)\<close> that is 1 at the origin and 0 elsewhere.\<close>

definition delta44 :: "real ndarray" where
  "delta44 = \<lparr>shape = [4, 4], item = (\<lambda>idx. if idx = [0, 0] then 1 else 0)\<rparr>"


section \<open>Auxiliary facts\<close>

lemma and_then_simps [simp]:
  "and_then (Inl e) f = Inl e" "and_then (Inr v) f = f v"
  by (simp_all add: and_then_def)


subsection \<open>Ranges of axes\<close>

lemma cis_minus_pi: "cis (- pi) = - 1"
  by (simp add: complex_eq_iff)

lemma py_range_empty: "d \<le> 0 \<Longrightarrow> py_range (- d) 0 = []"
  by (simp add: py_range_def)

lemma py_range_pos: "0 < d \<Longrightarrow> py_range (- d) 0 = (- d) # py_range (- (d - 1)) 0"
  by (simp add: py_range_def upto.simps)

lemma py_range_neg2: "py_range (- 2) 0 = [- 2, - 1]"
  by (simp add: py_range_def upto.simps)

lemma cook_axes_too_many:
  "int r < d \<Longrightarrow> cook_axes r (py_range (- d) 0) = Inl IndexError"
  by (simp add: py_range_pos cook_axes_def)

subsection \<open>The real part of an impulse response\<close>

lemma shape_real_part: "shape (real_part x) = shape x"
  by (simp add: real_part_def)

lemma item_real_part: "Re (item (real_part x) idx) = Re (item x idx)"
  by (simp add: real_part_def)

lemma ndim_real_part: "ndim (real_part x) = ndim x"
  by (simp add: ndim_def shape_real_part)

lemma ir2tf_dim_real_part: "ir2tf_dim (real_part x) dim_arg = ir2tf_dim x dim_arg"
  unfolding ir2tf_dim_def ndim_real_part ..

lemma setitem_origin_real_part: "setitem_origin p (real_part x) = setitem_origin p x"
  unfolding setitem_origin_def ndim_real_part shape_real_part item_real_part ..

lemma ir2tf_irpadded_real_part:
  "ir2tf_irpadded (real_part x) shp dim_arg = ir2tf_irpadded x shp dim_arg"
  unfolding ir2tf_irpadded_def setitem_origin_real_part ir2tf_dim_real_part ndim_real_part
    shape_real_part ..

subsection \<open>Shapes of the padded buffer\<close>

lemma shape_np_roll: "np_roll a sh ax = Inr b \<Longrightarrow> shape b = shape a"
  by (auto simp: np_roll_def Let_def split: if_splits)

lemma shape_roll_axes: "roll_axes ps lo a = Inr b \<Longrightarrow> shape b = shape a"
proof (induction ps lo a rule: roll_axes.induct)
  case (1 lo irpadded)
  then show ?case by simp
next
  case (2 axis axis_size rest lo irpadded)
  then show ?case
    by (auto split: if_splits sum.splits dest: shape_np_roll)
qed

lemma shape_setitem_origin: "setitem_origin p x = Inr q \<Longrightarrow> shape q = shape p"
  by (auto simp: setitem_origin_def Let_def split: if_splits)

lemma shape_ir2tf_irpadded: "ir2tf_irpadded x shp dim_arg = Inr p \<Longrightarrow> shape p = shp"
  by (auto simp: ir2tf_irpadded_def np_zeros_def split: sum.splits
      dest!: shape_roll_axes shape_setitem_origin)

subsection \<open>Transforms over axes that do not exist\<close>

lemma ufftn_dim_too_large:
  "int (ndim x) < d \<Longrightarrow> ufftn x (Some d) = Inl IndexError"
  by (simp add: ufftn_def default_dim_def np_fft_fftn_def cook_axes_too_many)

lemma uifftn_dim_too_large:
  "int (ndim x) < d \<Longrightarrow> uifftn x (Some d) = Inl IndexError"
  by (simp add: uifftn_def default_dim_def np_fft_ifftn_def cook_axes_too_many)

lemma urfftn_dim_too_large:
  "int (ndim x) < d \<Longrightarrow> urfftn x (Some d) = Inl IndexError"
  by (simp add: urfftn_def default_dim_def np_fft_rfftn_def cook_axes_too_many)

lemma urfftn_dim_not_positive:
  "d \<le> 0 \<Longrightarrow> urfftn x (Some d) = Inl IndexError"
  by (simp add: urfftn_def default_dim_def np_fft_rfftn_def py_range_empty cook_axes_def)

lemma ifft_n_bad_axis: "int (ndim a) < d \<Longrightarrow> \<exists>e. ifft_n n (- d) a = Inl e"
  by (simp add: ifft_n_def normalize_axis_def)

lemma irfft_n_bad_axis: "int (ndim a) < d \<Longrightarrow> \<exists>e. irfft_n n (- d) a = Inl e"
  by (simp add: irfft_n_def normalize_axis_def)

lemma length_py_range: "length (py_range (- d) 0) = nat d"
  by (simp add: py_range_def)

lemma irfftn_lengths_bad_axis:
  assumes "int (ndim a) < d" "length lens = nat d"
  shows "\<exists>e. irfftn_lengths a lens (py_range (- d) 0) = Inl e"
proof (cases "d = 1")
  case True
  then have "py_range (- d) 0 = [- d]"
    by (simp add: py_range_def upto.simps)
  then show ?thesis
    using irfft_n_bad_axis[OF assms(1)] by (auto simp: irfftn_lengths_def)
next
  case False
  with assms have d: "1 < d" by linarith
  then obtain rest where r: "py_range (- d) 0 = (- d) # rest" "rest \<noteq> []"
    using py_range_pos[of d] py_range_pos[of "d - 1"] by auto
  from d assms(2) obtain l ls where l: "lens = l # ls" "ls \<noteq> []"
    by (cases lens; cases "tl lens") (auto simp: nat_eq_iff2)
  obtain e where "ifft_n l (- d) a = Inl e"
    using ifft_n_bad_axis[OF assms(1)] by blast
  then show ?thesis
    by (simp add: irfftn_lengths_def r l)
qed

lemma uirfftn_dim_too_large:
  assumes "int (ndim x) < d"
  shows "\<exists>e. uirfftn x (Some d) shp = Inl e"
proof (cases shp)
  case None
  then show ?thesis
    using assms by (simp add: uirfftn_def default_dim_def np_fft_irfftn_def cook_axes_too_many)
next
  case (Some lens)
  have ne: "py_range (- d) 0 \<noteq> []"
    using assms py_range_pos[of d] by auto
  show ?thesis
  proof (cases "length lens = nat d")
    case True
    then obtain e where "irfftn_lengths x lens (py_range (- d) 0) = Inl e"
      using irfftn_lengths_bad_axis[OF assms] by blast
    then show ?thesis
      using True ne
      by (simp add: uirfftn_def default_dim_def np_fft_irfftn_def Some length_py_range)
  next
    case False
    then show ?thesis
      by (simp add: uirfftn_def default_dim_def np_fft_irfftn_def Some length_py_range)
  qed
qed

lemma uirfftn_dim_not_positive:
  assumes "d \<le> 0"
  shows "\<exists>e. uirfftn x (Some d) shp = Inl e"
  using assms
  by (cases shp)
    (simp_all add: uirfftn_def default_dim_def np_fft_irfftn_def py_range_empty cook_axes_def)

subsection \<open>The axes of a transform over the last axes\<close>

lemma range_axes:
  "d \<le> r \<Longrightarrow> map (\<lambda>a. nat (if a < 0 then a + int r else a)) (py_range (- int d) 0) = [r - d..<r]"
proof (induction d)
  case 0
  then show ?case by (simp add: py_range_def)
next
  case (Suc d)
  then have "[r - Suc d..<r] = (r - Suc d) # [r - d..<r]"
    by (simp add: upt_conv_Cons Suc_diff_Suc)
  moreover have "py_range (- int (Suc d)) 0 = (- int (Suc d)) # py_range (- int d) 0"
    using py_range_pos[of "int (Suc d)"] by simp
  ultimately show ?case using Suc by (simp add: nat_diff_distrib')
qed

lemma range_axes_ok:
  "d \<le> r \<Longrightarrow> list_all (\<lambda>a. - int r \<le> a \<and> a < int r) (py_range (- int d) 0)"
  by (auto simp: py_range_def list_all_iff)

lemma cook_axes_range:
  "d \<le> r \<Longrightarrow> cook_axes r (py_range (- int d) 0) = Inr [r - d..<r]"
  by (simp add: cook_axes_def range_axes range_axes_ok)


lemma np_fft_fftn_range:
  "0 \<le> d \<Longrightarrow> d \<le> int (ndim x) \<Longrightarrow>
     np_fft_fftn x (py_range (- d) 0) = raw_fftnd fft_axis (rev [ndim x - nat d..<ndim x]) x"
  using cook_axes_range[of "nat d" "ndim x"] by (simp add: np_fft_fftn_def)

subsection \<open>The coefficient at frequency zero\<close>




lemma twiddle_zero [simp]: "twiddle sg n 0 m = 1"
  by (simp add: twiddle_def)




subsection \<open>The inverse transform inverts the forward transform\<close>









lemma shape_ifft_axis: "ifft_axis ax a = Inr b \<Longrightarrow> shape b = shape a"
  by (auto simp: ifft_axis_def Let_def split: if_splits)

lemma shape_raw_fftnd:
  assumes "\<And>ax a b. f ax a = Inr b \<Longrightarrow> shape b = shape a"
  shows "raw_fftnd f axs a = Inr b \<Longrightarrow> shape b = shape a"
proof (induction axs arbitrary: a)
  case Nil
  then show ?case by simp
next
  case (Cons ax axs)
  then show ?case using assms by (auto split: sum.splits)
qed


lemma shape_np_fft_ifftn: "np_fft_ifftn a axes = Inr b \<Longrightarrow> shape b = shape a"
  using shape_raw_fftnd[of ifft_axis, OF shape_ifft_axis]
  by (auto simp: np_fft_ifftn_def split: sum.splits)












subsection \<open>Padding and rolling\<close>

lemma np_roll_item:
  assumes "axis < ndim a" "0 < shape a ! axis"
  shows "np_roll a (- int h) axis =
           Inr \<lparr>shape = shape a,
                item = (\<lambda>idx. item a (idx[axis := (idx ! axis + h) mod (shape a ! axis)]))\<rparr>"
proof -
  have "nat ((int j + int h) mod int n) = (j + h) mod n" for j n
    by (simp add: nat_mod_distrib nat_add_distrib)
  then show ?thesis
    using assms by (simp add: np_roll_def Let_def)
qed

lemma roll_axes_enumerate:
  fixes a :: "real ndarray"
  assumes "k + length ss \<le> ndim a" "lo \<le> int k" "list_all (\<lambda>n. 0 < n) (shape a)"
  shows "\<exists>b. roll_axes (enumerate k ss) lo a = Inr b \<and> shape b = shape a
           \<and> (\<forall>idx. item b idx =
                 item a (map (\<lambda>i. if k \<le> i \<and> i < k + length ss
                                    then (idx ! i + ss ! (i - k) div 2) mod (shape a ! i)
                                    else idx ! i) [0..<length idx]))"
  using assms
proof (induction ss arbitrary: k a)
  case Nil
  have "map (\<lambda>i. if k \<le> i \<and> i < k + length ([]::nat list)
                     then (idx ! i + [] ! (i - k) div 2) mod (shape a ! i)
                     else idx ! i) [0..<length idx] = idx" for idx :: "nat list"
    by (rule nth_equalityI) auto
  then show ?case by simp
next
  case (Cons s ss)
  let ?n = "shape a ! k"
  have kl: "k < ndim a" using Cons.prems(1) by simp
  then have pos: "0 < ?n"
    using Cons.prems(3) by (simp add: list_all_length ndim_def)
  define a1 where "a1 = \<lparr>shape = shape a,
      item = (\<lambda>idx. item a (idx[k := (idx ! k + s div 2) mod ?n]))\<rparr>"
  have r1: "np_roll a (- int (s div 2)) k = Inr a1"
    using np_roll_item[OF kl pos] by (simp add: a1_def)
  have sa1: "shape a1 = shape a" by (simp add: a1_def)
  have "\<exists>b. roll_axes (enumerate (Suc k) ss) lo a1 = Inr b \<and> shape b = shape a1
           \<and> (\<forall>idx. item b idx =
                 item a1 (map (\<lambda>i. if Suc k \<le> i \<and> i < Suc k + length ss
                                    then (idx ! i + ss ! (i - Suc k) div 2) mod (shape a1 ! i)
                                    else idx ! i) [0..<length idx]))"
    by (rule Cons.IH) (use Cons.prems sa1 in \<open>auto simp: ndim_def\<close>)
  then obtain b where b: "roll_axes (enumerate (Suc k) ss) lo a1 = Inr b" "shape b = shape a"
    and bi: "\<And>idx. item b idx =
                 item a1 (map (\<lambda>i. if Suc k \<le> i \<and> i < Suc k + length ss
                                    then (idx ! i + ss ! (i - Suc k) div 2) mod (shape a ! i)
                                    else idx ! i) [0..<length idx])"
    unfolding sa1 by blast
  have "item b idx = item a (map (\<lambda>i. if k \<le> i \<and> i < k + length (s # ss)
                                    then (idx ! i + (s # ss) ! (i - k) div 2) mod (shape a ! i)
                                    else idx ! i) [0..<length idx])" for idx
  proof -
    let ?q = "map (\<lambda>i. if Suc k \<le> i \<and> i < Suc k + length ss
                                    then (idx ! i + ss ! (i - Suc k) div 2) mod (shape a ! i)
                                    else idx ! i) [0..<length idx]"
    have "?q[k := (?q ! k + s div 2) mod ?n] =
          map (\<lambda>i. if k \<le> i \<and> i < k + length (s # ss)
                                    then (idx ! i + (s # ss) ! (i - k) div 2) mod (shape a ! i)
                                    else idx ! i) [0..<length idx]"
      by (rule nth_equalityI) (auto simp: nth_list_update nth_Cons')
    then show ?thesis by (simp add: bi a1_def)
  qed
  then show ?case
    using b r1 Cons.prems(2) by (simp add: enumerate_simps)
qed

lemma roll_axes_all:
  fixes a :: "real ndarray"
  assumes "length ss \<le> ndim a" "lo \<le> 0" "list_all (\<lambda>n. 0 < n) (shape a)"
  shows "\<exists>b. roll_axes (enumerate 0 ss) lo a = Inr b \<and> shape b = shape a
           \<and> (\<forall>idx. item b idx =
                 item a (map (\<lambda>i. if i < length ss
                                    then (idx ! i + ss ! i div 2) mod (shape a ! i)
                                    else idx ! i) [0..<length idx]))"
  using roll_axes_enumerate[of 0 ss a lo] assms by (simp cong: if_cong)

lemma map2_min_fits: "list_all2 (\<le>) s t \<Longrightarrow> map2 min s t = (s::nat list)"
  by (induction rule: list_all2_induct) auto

lemma broadcast_index_in_region:
  "list_all2 (<) q s \<Longrightarrow> map2 (\<lambda>se j. if se = Suc 0 then 0 else j) s q = (q::nat list)"
  by (induction rule: list_all2_induct) auto

lemma setitem_origin_fits:
  assumes "length shp = ndim x" "list_all2 (\<le>) (shape x) shp"
  shows "\<exists>p. setitem_origin (np_zeros shp) x = Inr p \<and> shape p = shp
           \<and> (\<forall>q. length q = ndim x \<longrightarrow>
                  item p q = (if list_all2 (<) q (shape x) then Re (item x q) else 0))"
proof -
  have r: "map2 min (shape x) shp = shape x" using map2_min_fits[OF assms(2)] .
  have b: "list_all2 (\<lambda>se re. se = re \<or> se = 1) (shape x) (shape x)"
    by (simp add: list_all2_same)
  show ?thesis
    using assms(1) r b
    by (auto simp: setitem_origin_def np_zeros_def ndim_def Let_def broadcast_index_in_region)
qed


lemma roll_axes_ok:
  assumes "k + length ss \<le> ndim a"
  shows "\<exists>b. roll_axes (enumerate k ss) lo a = Inr b \<and> shape b = shape a"
  using assms
proof (induction ss arbitrary: k a)
  case Nil
  then show ?case by simp
next
  case (Cons s ss)
  show ?case
  proof (cases "lo \<le> int k")
    case True
    have "\<exists>a1. np_roll a (- int (s div 2)) k = Inr a1"
      using Cons.prems by (simp add: np_roll_def Let_def)
    then obtain a1 where a1: "np_roll a (- int (s div 2)) k = Inr a1" ..
    then have sa: "shape a1 = shape a" by (rule shape_np_roll)
    then have "Suc k + length ss \<le> ndim a1" using Cons.prems by (simp add: ndim_def)
    from Cons.IH[OF this] show ?thesis using True a1 sa by (simp add: enumerate_simps)
  next
    case False
    have "Suc k + length ss \<le> ndim a" using Cons.prems by simp
    from Cons.IH[OF this] show ?thesis using False by (simp add: enumerate_simps)
  qed
qed

lemma setitem_origin_too_many_indices:
  "length shp < ndim x \<Longrightarrow> setitem_origin (np_zeros shp) x = Inl IndexError"
  by (simp add: setitem_origin_def np_zeros_def)

lemma raw_fftnd_fft_ok:
  fixes b :: "complex ndarray"
  assumes "list_all (\<lambda>n. 0 < n) (shape b)" "\<forall>a\<in>set A. a < length (shape b)"
  shows "\<exists>y. raw_fftnd fft_axis A b = Inr y \<and> shape y = shape b"
  using assms
proof (induction A arbitrary: b)
  case Nil
  then show ?case by simp
next
  case (Cons a A)
  have "0 < shape b ! a" using Cons.prems by (simp add: list_all_length)
  then obtain g where g: "fft_axis a b = Inr g" "shape g = shape b"
    by (simp add: fft_axis_def Let_def)
  from Cons.IH[of g] Cons.prems g(2) obtain y where "raw_fftnd fft_axis A g = Inr y" "shape y = shape b"
    by auto
  then show ?case using g by simp
qed

lemma np_fft_fftn_shape:
  assumes "0 \<le> d" "d \<le> int (ndim p)" "list_all (\<lambda>n. 0 < n) (shape p)"
  shows "\<exists>y. np_fft_fftn p (py_range (- d) 0) = Inr y \<and> shape y = shape p"
  using raw_fftnd_fft_ok[OF assms(3), of "rev [ndim p - nat d..<ndim p]"]
    np_fft_fftn_range[OF assms(1,2)] by (auto simp: ndim_def)

lemma np_fft_rfftn_shape:
  assumes "1 \<le> d" "d \<le> int (ndim p)" "list_all (\<lambda>n. 0 < n) (shape p)"
  shows "\<exists>y. np_fft_rfftn p (py_range (- d) 0) = Inr y
           \<and> shape y = (shape p)[ndim p - 1 := shape p ! (ndim p - 1) div 2 + 1]"
proof -
  let ?r = "ndim p" and ?k = "ndim p - nat d"
  have c: "cook_axes ?r (py_range (- d) 0) = Inr [?k..<?r]"
    using cook_axes_range[of "nat d" ?r] assms by simp
  have k: "?k < ?r" using assms by linarith
  then have u: "[?k..<?r] = [?k..<?r - 1] @ [?r - 1]"
    using upt_Suc_append[of ?k "?r - 1"] by simp
  have ne: "[?k..<?r] \<noteq> []" and la: "last [?k..<?r] = ?r - 1"
    and bl: "butlast [?k..<?r] = [?k..<?r - 1]"
    using k by (simp, subst u, simp, subst u, simp)
  let ?n = "shape p ! (?r - 1)"
  have "0 < ?n" using assms(3) k by (simp add: list_all_length ndim_def)
  then obtain b where b: "rfft_axis (?r - 1) p = Inr b" "shape b = (shape p)[?r - 1 := ?n div 2 + 1]"
    by (simp add: rfft_axis_def Let_def)
  have pb: "list_all (\<lambda>n. 0 < n) (shape b)"
    using assms(3) k by (auto simp: b(2) list_all_length nth_list_update ndim_def)
  have "\<forall>a\<in>set [?k..<?r - 1]. a < length (shape b)"
    by (auto simp: b(2) ndim_def)
  from raw_fftnd_fft_ok[OF pb this]
  obtain y where "raw_fftnd fft_axis [?k..<?r - 1] b = Inr y" "shape y = shape b"
    by blast
  then show ?thesis
    using c ne la bl b by (simp add: np_fft_rfftn_def)
qed

subsection \<open>The energy of a Hermitian spectrum\<close>





subsection \<open>Transforms over the last two axes\<close>

lemma last_two_axes: "rev [l..<l + 2] = [Suc l, l]"
  by (simp add: numeral_2_eq_2)

lemma update_last_two:
  "length b = l \<Longrightarrow> (b @ [k1, k2])[l := m1] = b @ [m1, k2]"
  "length b = l \<Longrightarrow> (b @ [k1, k2])[Suc l := m2] = b @ [k1, m2]"
  "length b = l \<Longrightarrow> (b @ [k1, k2]) ! l = k1"
  "length b = l \<Longrightarrow> (b @ [k1, k2]) ! Suc l = k2"
  by (simp_all add: list_update_append nth_append)

lemma sqrt_prod_last_two:
  "sqrt_prod (py_slice_from (batch @ [n1, n2]) (- 2)) = sqrt (real (n1 * n2))"
  by (simp add: py_slice_from_def sqrt_prod_def nat_diff_distrib')



lemma fft_last_two:
  fixes x :: "complex ndarray"
  assumes "shape x = batch @ [n1, n2]" "0 < n1" "0 < n2"
  shows "\<exists>g. raw_fftnd fft_axis [Suc (length batch), length batch] x = Inr g
           \<and> shape g = batch @ [n1, n2]
           \<and> (\<forall>b k1 k2. length b = length batch \<longrightarrow>
                 item g (b @ [k1, k2]) =
                   (\<Sum>m1<n1. (\<Sum>m2<n2. item x (b @ [m1, m2]) * twiddle (- 1) n2 k2 m2)
                              * twiddle (- 1) n1 k1 m1))"
proof -
  let ?l = "length batch"
  have s: "shape x ! ?l = n1" "shape x ! Suc ?l = n2"
    by (simp_all add: assms(1) nth_append)
  define g1 where "g1 = \<lparr>shape = shape x,
      item = (\<lambda>idx. \<Sum>m<n2. item x (idx[Suc ?l := m]) * twiddle (- 1) n2 (idx ! Suc ?l) m)\<rparr>"
  define g2 where "g2 = \<lparr>shape = shape x,
      item = (\<lambda>idx. \<Sum>m<n1. item g1 (idx[?l := m]) * twiddle (- 1) n1 (idx ! ?l) m)\<rparr>"
  have 1: "fft_axis (Suc ?l) x = Inr g1"
    using assms(3) by (simp add: fft_axis_def s Let_def g1_def)
  have s1: "shape g1 ! ?l = n1" "shape g1 = shape x" by (simp_all add: g1_def s)
  have 2: "fft_axis ?l g1 = Inr g2"
    using assms(2) by (simp add: fft_axis_def s1 s Let_def g2_def)
  have "item g2 (b @ [k1, k2]) =
          (\<Sum>m1<n1. (\<Sum>m2<n2. item x (b @ [m1, m2]) * twiddle (- 1) n2 k2 m2)
                              * twiddle (- 1) n1 k1 m1)"
    if "length b = ?l" for b k1 k2
    using that by (simp add: g2_def g1_def update_last_two)
  then show ?thesis
    using 1 2 by (simp add: g2_def assms(1))
qed


lemma rfft_last_two:
  fixes x :: "real ndarray"
  assumes "shape x = batch @ [n1, n2]" "0 < n1" "0 < n2"
  shows "\<exists>g1 g. rfft_axis (Suc (length batch)) x = Inr g1
           \<and> raw_fftnd fft_axis [length batch] g1 = Inr g
           \<and> shape g = batch @ [n1, n2 div 2 + 1]
           \<and> (\<forall>b k1 k2. length b = length batch \<longrightarrow>
                 item g (b @ [k1, k2]) =
                   (\<Sum>m1<n1. (\<Sum>m2<n2. complex_of_real (item x (b @ [m1, m2]))
                                          * twiddle (- 1) n2 k2 m2)
                              * twiddle (- 1) n1 k1 m1))"
proof -
  let ?l = "length batch"
  have s: "shape x ! ?l = n1" "shape x ! Suc ?l = n2"
    by (simp_all add: assms(1) nth_append)
  define g1 where "g1 = \<lparr>shape = (shape x)[Suc ?l := n2 div 2 + 1],
      item = (\<lambda>idx. \<Sum>m<n2. complex_of_real (item x (idx[Suc ?l := m]))
                                * twiddle (- 1) n2 (idx ! Suc ?l) m)\<rparr>"
  define g2 where "g2 = \<lparr>shape = shape g1,
      item = (\<lambda>idx. \<Sum>m<n1. item g1 (idx[?l := m]) * twiddle (- 1) n1 (idx ! ?l) m)\<rparr>"
  have 1: "rfft_axis (Suc ?l) x = Inr g1"
    using assms(3) by (simp add: rfft_axis_def s Let_def g1_def)
  have s1: "shape g1 = batch @ [n1, n2 div 2 + 1]"
    by (simp add: g1_def assms(1) list_update_append)
  then have s1': "shape g1 ! ?l = n1" by (simp add: nth_append)
  have 2: "fft_axis ?l g1 = Inr g2"
    using assms(2) by (simp add: fft_axis_def s1' Let_def g2_def)
  have "item g2 (b @ [k1, k2]) =
          (\<Sum>m1<n1. (\<Sum>m2<n2. complex_of_real (item x (b @ [m1, m2])) * twiddle (- 1) n2 k2 m2)
                              * twiddle (- 1) n1 k1 m1)"
    if "length b = ?l" for b k1 k2
    using that by (simp add: g2_def g1_def update_last_two)
  then show ?thesis
    using 1 2 s1 by (simp add: g2_def)
qed

lemma ufft2_items:
  fixes x :: "complex ndarray"
  assumes "shape x = batch @ [n1, n2]" "0 < n1" "0 < n2"
  shows "\<exists>u. ufft2 x = Inr u \<and> shape u = batch @ [n1, n2]
           \<and> (\<forall>b k1 k2. length b = length batch \<longrightarrow>
                 item u (b @ [k1, k2]) =
                   (\<Sum>m1<n1. (\<Sum>m2<n2. item x (b @ [m1, m2]) * twiddle (- 1) n2 k2 m2)
                              * twiddle (- 1) n1 k1 m1) / of_real (sqrt (real (n1 * n2))))"
proof -
  let ?l = "length batch"
  have r: "ndim x = ?l + 2" by (simp add: ndim_def assms(1))
  have "np_fft_fftn x (py_range (- 2) 0) = raw_fftnd fft_axis (rev [ndim x - nat 2..<ndim x]) x"
    by (rule np_fft_fftn_range) (simp_all add: r)
  also have "rev [ndim x - nat 2..<ndim x] = [Suc ?l, ?l]"
    using last_two_axes[of ?l] by (simp add: r)
  finally have ax: "np_fft_fftn x (py_range (- 2) 0) = raw_fftnd fft_axis [Suc ?l, ?l] x" .
  obtain g where g: "raw_fftnd fft_axis [Suc ?l, ?l] x = Inr g" "shape g = batch @ [n1, n2]"
    and gi: "\<And>b k1 k2. length b = ?l \<Longrightarrow> item g (b @ [k1, k2]) =
                   (\<Sum>m1<n1. (\<Sum>m2<n2. item x (b @ [m1, m2]) * twiddle (- 1) n2 k2 m2)
                              * twiddle (- 1) n1 k1 m1)"
    using fft_last_two[OF assms] by blast
  have "ufft2 x = Inr (divide_scalar g (sqrt (real (n1 * n2))))"
    unfolding ufft2_def ufftn_def default_dim_def
    by (simp add: ax g(1) assms(1) sqrt_prod_last_two del: raw_fftnd.simps)
  then show ?thesis
    using g(2) gi by (simp add: divide_scalar_def)
qed

lemma urfft2_items:
  fixes x :: "real ndarray"
  assumes "shape x = batch @ [n1, n2]" "0 < n1" "0 < n2"
  shows "\<exists>v. urfft2 x = Inr v \<and> shape v = batch @ [n1, n2 div 2 + 1]
           \<and> (\<forall>b k1 k2. length b = length batch \<longrightarrow>
                 item v (b @ [k1, k2]) =
                   (\<Sum>m1<n1. (\<Sum>m2<n2. complex_of_real (item x (b @ [m1, m2]))
                                          * twiddle (- 1) n2 k2 m2)
                              * twiddle (- 1) n1 k1 m1) / of_real (sqrt (real (n1 * n2))))"
proof -
  let ?l = "length batch"
  have r: "ndim x = ?l + 2" by (simp add: ndim_def assms(1))
  have "cook_axes (ndim x) (py_range (- int 2) 0) = Inr [ndim x - 2..<ndim x]"
    by (rule cook_axes_range) (simp add: r)
  moreover have "[ndim x - 2..<ndim x] = [?l, Suc ?l]"
    using last_two_axes[of ?l] by (simp add: r)
  ultimately have c: "cook_axes (ndim x) (py_range (- 2) 0) = Inr [?l, Suc ?l]"
    by simp
  obtain g1 g where g: "rfft_axis (Suc ?l) x = Inr g1" "raw_fftnd fft_axis [?l] g1 = Inr g"
      "shape g = batch @ [n1, n2 div 2 + 1]"
    and gi: "\<And>b k1 k2. length b = ?l \<Longrightarrow> item g (b @ [k1, k2]) =
                   (\<Sum>m1<n1. (\<Sum>m2<n2. complex_of_real (item x (b @ [m1, m2]))
                                          * twiddle (- 1) n2 k2 m2)
                              * twiddle (- 1) n1 k1 m1)"
    using rfft_last_two[OF assms] by blast
  have "np_fft_rfftn x (py_range (- 2) 0) = Inr g"
    unfolding np_fft_rfftn_def c using g(1,2) by simp
  then have "urfft2 x = Inr (divide_scalar g (sqrt (real (n1 * n2))))"
    unfolding urfft2_def urfftn_def default_dim_def
    by (simp add: assms(1) sqrt_prod_last_two)
  then show ?thesis
    using g(3) gi by (simp add: divide_scalar_def)
qed


lemma image_quad_norm_eval:
  assumes "shape x = batch @ [m, n]" and "m = n \<or> 0 < n"
  shows "\<exists>y. image_quad_norm x = Inr y \<and> shape y = batch
           \<and> (\<forall>b. item y b =
                 (if n \<noteq> m
                  then 2 * (\<Sum>i<m. \<Sum>j<n. (cmod (item x (b @ [i, j])))\<^sup>2)
                       - (\<Sum>i<m. (cmod (item x (b @ [i, 0])))\<^sup>2)
                  else (\<Sum>i<m. \<Sum>j<n. (cmod (item x (b @ [i, j])))\<^sup>2)))"
  using assms
  by (auto simp: image_quad_norm_def ndim_def sum_last_axis_def abs_squared_def index_last0_def
      scalar_times_def np_subtract_def butlast_append)



lemma dft_delta44:
  "(\<Sum>m1<4. (\<Sum>m2<4. complex_of_real (item delta44 ([] @ [m1, m2])) * twiddle (- 1) 4 k2 m2)
               * twiddle (- 1) 4 k1 m1) = 1"
  by (simp add: delta44_def eval_nat_numeral lessThan_Suc twiddle_def)

subsection \<open>Rounding to float64\<close>



lemma float64_zero [simp]: "float64 0 = 0"
  by (simp add: float64_def)














subsection \<open>The default of the number of axes\<close>


lemma uirfftn_no_shape_dim_too_large:
  "int (ndim x) < d \<Longrightarrow> uirfftn x (Some d) None = Inl IndexError"
  by (simp add: uirfftn_def default_dim_def np_fft_irfftn_def cook_axes_too_many)

lemma uirfftn_no_shape_dim_not_positive:
  "d \<le> 0 \<Longrightarrow> uirfftn x (Some d) None = Inl IndexError"
  by (simp add: uirfftn_def default_dim_def np_fft_irfftn_def py_range_empty cook_axes_def)

lemma error_cases: "(\<exists>e. r = Inl e) \<Longrightarrow> r = Inl IndexError \<or> r = Inl ValueError"
  by (metis error.exhaust)

subsection \<open>Evaluation on small arrays\<close>

lemmas ir2tf_eval =
  ir2tf_def ir2tf_irpadded_def setitem_origin_def np_zeros_def astype_complex_def np_ones_def
  ndim_def ir2tf_dim_def enumerate_eq_zip np_roll_def Let_def upt_rec py_range_neg2
  np_fft_rfftn_def np_fft_fftn_def cook_axes_def rfft_axis_def fft_axis_def twiddle_def
  eval_nat_numeral lessThan_Suc cis_minus_pi

lemma sqrt_prod_22: "sqrt_prod [Suc (Suc 0), Suc (Suc 0)] = 2"
  by (simp add: sqrt_prod_def)

lemma irpadded_ones22: "\<exists>p. ir2tf_irpadded ones22 [2, 2] None = Inr p"
  by (simp add: ones22_def ir2tf_eval)

section \<open>The transfer function of the docstring example\<close>

text \<open>
  C2. \<^verbatim>\<open>ir2tf(np.ones((2, 2)), (2, 2))\<close> with the default \<^verbatim>\<open>is_real=True\<close> returns
  the array of shape \<open>(2, 2)\<close> with the entries \<open>[[4, 0], [0, 0]]\<close>.
\<close>

theorem ir2tf_ones_2x2:
  "\<exists>y. ir2tf ones22 [2, 2] None True = Inr y \<and> shape y = [2, 2]
     \<and> item y [0, 0] = 4 \<and> item y [0, 1] = 0 \<and> item y [1, 0] = 0 \<and> item y [1, 1] = 0"
  by (simp add: ones22_def ir2tf_eval)

section \<open>Only the real part of the impulse response is transformed\<close>

text \<open>
  C10. The padded buffer of \<^verbatim>\<open>ir2tf\<close> is a real array (\<^verbatim>\<open>np.zeros\<close>), and the
  assignment of the impulse response into it keeps the real part only. So, whatever
  \<^verbatim>\<open>is_real\<close> is, the transfer function of an impulse response is the transfer
  function of its real part: the imaginary part never reaches the transform.
\<close>

theorem ir2tf_real_part_only:
  "ir2tf (real_part imp_resp) shp dim_arg is_real = ir2tf imp_resp shp dim_arg is_real"
  unfolding ir2tf_def ir2tf_irpadded_real_part ir2tf_dim_real_part ..

section \<open>The final step of \<^verbatim>\<open>ir2tf\<close> is the plain transform\<close>

text \<open>
  C1 says that the final step of \<^verbatim>\<open>ir2tf\<close> is the unitary transform, that is, that the
  result is the FFT of the padded and rolled buffer divided by the square root of the
  product of the transformed axis lengths. For \<^verbatim>\<open>np.ones((2, 2))\<close> on the shape
  \<open>(2, 2)\<close> the result has the entry 4 at the origin, where the unitary transform
  \<^verbatim>\<open>urfftn\<close> of the same buffer has 2.
\<close>

theorem ir2tf_not_unitary_ones_2x2:
  "\<exists>p y u. ir2tf_irpadded ones22 [2, 2] None = Inr p \<and> ir2tf ones22 [2, 2] None True = Inr y
     \<and> urfftn p None = Inr u \<and> item y [0, 0] = 4 \<and> item u [0, 0] = 2"
  by (simp add: ones22_def urfftn_def default_dim_def py_slice_from_def divide_scalar_def
      sqrt_prod_22 ir2tf_eval)

text \<open>
  C1, amended. The final step of \<^verbatim>\<open>ir2tf\<close> applies the FFT collaborator's plain
  (unnormalized) forward transform over the last \<open>dim\<close> axes of the padded and rolled
  buffer, \<^verbatim>\<open>rfftn\<close> when \<^verbatim>\<open>is_real\<close> is true and \<^verbatim>\<open>fftn\<close> otherwise, with no
  division; the unitary transform of that buffer (\<^verbatim>\<open>urfftn\<close>, \<^verbatim>\<open>ufftn\<close>) is the
  returned transfer function divided by the square root of the product of the last
  \<open>dim\<close> entries of the target shape.
\<close>

theorem ir2tf_unnormalized:
  assumes "ir2tf_irpadded imp_resp shp dim_arg = Inr irpadded"
  shows "ir2tf imp_resp shp dim_arg is_real =
           (if is_real then np_fft_rfftn irpadded (py_range (- ir2tf_dim imp_resp dim_arg) 0)
            else np_fft_fftn (astype_complex irpadded)
                   (py_range (- ir2tf_dim imp_resp dim_arg) 0))
       \<and> (if is_real then urfftn irpadded (Some (ir2tf_dim imp_resp dim_arg))
          else ufftn (astype_complex irpadded) (Some (ir2tf_dim imp_resp dim_arg))) =
           and_then (ir2tf imp_resp shp dim_arg is_real)
             (\<lambda>y. Inr (divide_scalar y
                (sqrt_prod (py_slice_from shp (- ir2tf_dim imp_resp dim_arg)))))"
  using assms shape_ir2tf_irpadded[OF assms]
  by (simp add: ir2tf_def urfftn_def ufftn_def default_dim_def and_then_def astype_complex_def
      split: sum.splits)

theorem ir2tf_unnormalized_witness:
  "\<exists>p. ir2tf_irpadded ones22 [2, 2] None = Inr p
     \<and> ir2tf ones22 [2, 2] None True = np_fft_rfftn p (py_range (- 2) 0)
     \<and> urfftn p (Some 2) =
         and_then (ir2tf ones22 [2, 2] None True) (\<lambda>y. Inr (divide_scalar y 2))"
proof -
  obtain p where p: "ir2tf_irpadded ones22 [2, 2] None = Inr p"
    using irpadded_ones22 by blast
  have d: "ir2tf_dim ones22 None = 2"
    by (simp add: ir2tf_dim_def ones22_def ndim_def astype_complex_def np_ones_def)
  have s: "sqrt_prod (py_slice_from [2, 2] (- 2)) = 2"
    by (simp add: py_slice_from_def sqrt_prod_def)
  show ?thesis
    using ir2tf_unnormalized [OF p, of True] p by (auto simp: d s)
qed

section \<open>Transforms with a number of axes the array does not have\<close>

text \<open>
  C5 says that every \<open>dim\<close> that is greater than the rank or not positive makes the four
  unitary transforms fail. None of them checks \<open>dim\<close>: it only reaches the FFT call as
  \<^verbatim>\<open>range(-dim, 0)\<close>, which is empty for a \<open>dim\<close> that is not positive. Then \<^verbatim>\<open>fftn\<close>
  and \<^verbatim>\<open>ifftn\<close> transform along no axis, and \<^verbatim>\<open>ufftn\<close> and \<^verbatim>\<open>uifftn\<close> return their
  input scaled by the square root of the product of \<^verbatim>\<open>shape[-dim:]\<close>.
\<close>

theorem ufftn_dim_not_positive_returns:
  "ufftn ones22 (Some 0) = Inr (divide_scalar ones22 2)
     \<and> uifftn ones22 (Some (- 1)) = Inr (times_scalar ones22 (sqrt 2))"
  by (simp add: ufftn_def uifftn_def default_dim_def np_fft_fftn_def np_fft_ifftn_def
      py_range_def cook_axes_def py_slice_from_def ones22_def astype_complex_def np_ones_def
      sqrt_prod_def)

text \<open>
  C5, amended. For every array and every \<open>dim\<close> greater than its rank, \<^verbatim>\<open>ufftn\<close>,
  \<^verbatim>\<open>uifftn\<close>, \<^verbatim>\<open>urfftn\<close> and \<^verbatim>\<open>uirfftn\<close> fail in the FFT call, before any scaling,
  with the error that call raises for the axis that does not exist: an \<^verbatim>\<open>IndexError\<close>,
  and for \<^verbatim>\<open>uirfftn\<close> called with a shape argument an \<^verbatim>\<open>IndexError\<close> or a
  \<^verbatim>\<open>ValueError\<close>. For every \<open>dim\<close> that is not positive \<^verbatim>\<open>urfftn\<close> and
  \<^verbatim>\<open>uirfftn\<close> fail in the same way.
\<close>

theorem unitary_transforms_invalid_dim:
  assumes "int (ndim x) < d \<or> d \<le> 0" and "ndim xr = ndim x"
  shows "urfftn xr (Some d) = Inl IndexError
       \<and> uirfftn x (Some d) None = Inl IndexError
       \<and> (uirfftn x (Some d) (Some lens) = Inl IndexError
            \<or> uirfftn x (Some d) (Some lens) = Inl ValueError)
       \<and> (0 < d \<longrightarrow> ufftn x (Some d) = Inl IndexError \<and> uifftn x (Some d) = Inl IndexError)"
  using assms ufftn_dim_too_large[of x d] uifftn_dim_too_large[of x d]
    urfftn_dim_too_large[of xr d] urfftn_dim_not_positive[of d xr]
    uirfftn_no_shape_dim_too_large[of x d] uirfftn_no_shape_dim_not_positive[of d x]
    error_cases[OF uirfftn_dim_too_large[of x d "Some lens"]]
    error_cases[OF uirfftn_dim_not_positive[of d x "Some lens"]]
  by auto

theorem unitary_transforms_invalid_dim_witness:
  "(int (ndim ones22) < 3 \<or> (3::int) \<le> 0) \<and> ndim (np_ones [2, 2]) = ndim ones22
     \<and> urfftn (np_ones [2, 2]) (Some 3) = Inl IndexError
     \<and> uirfftn ones22 (Some 3) None = Inl IndexError
     \<and> (uirfftn ones22 (Some 3) (Some [2, 2]) = Inl IndexError
          \<or> uirfftn ones22 (Some 3) (Some [2, 2]) = Inl ValueError)
     \<and> ufftn ones22 (Some 3) = Inl IndexError \<and> uifftn ones22 (Some 3) = Inl IndexError
     \<and> urfftn (np_ones [2, 2]) (Some 0) = Inl IndexError
     \<and> uirfftn ones22 (Some 0) None = Inl IndexError"
proof -
  have r: "ndim ones22 = 2" "ndim (np_ones [2, 2]) = 2"
    by (simp_all add: ones22_def ndim_def astype_complex_def np_ones_def)
  show ?thesis
    using unitary_transforms_invalid_dim[of ones22 3 "np_ones [2, 2]" "[2, 2]"]
      unitary_transforms_invalid_dim[of ones22 0 "np_ones [2, 2]" "[2, 2]"]
    by (simp add: r)
qed

section \<open>The two branches of the quadratic norm\<close>

text \<open>
  C6. For an array whose last two axes have the lengths \<open>m\<close> and \<open>n\<close> (any leading
  axes are batch axes), \<^verbatim>\<open>image_quad_norm\<close> returns one number for each batch index, in
  an array that has the batch axes only: when \<open>n\<close> differs from \<open>m\<close>, twice the sum of
  the squared magnitudes over the last two axes minus the sum of the squared magnitudes
  of the slice at index 0 of the last axis; when they are equal, the sum of the squared
  magnitudes over the last two axes. The slice at index 0 has to exist in the first case.
\<close>

theorem image_quad_norm_branches:
  assumes "shape x = batch @ [m, n]" and "m = n \<or> 0 < n"
  shows "\<exists>y. image_quad_norm x = Inr y \<and> shape y = batch
           \<and> (\<forall>b. item y b =
                 (if n \<noteq> m
                  then 2 * (\<Sum>i<m. \<Sum>j<n. (cmod (item x (b @ [i, j])))\<^sup>2)
                       - (\<Sum>i<m. (cmod (item x (b @ [i, 0])))\<^sup>2)
                  else (\<Sum>i<m. \<Sum>j<n. (cmod (item x (b @ [i, j])))\<^sup>2)))"
  using assms by (rule image_quad_norm_eval)

theorem image_quad_norm_branches_witness:
  "shape ones23 = [] @ [2, 3] \<and> ((2::nat) = 3 \<or> (0::nat) < 3)
     \<and> (\<exists>y. image_quad_norm ones23 = Inr y \<and> shape y = [] \<and> item y [] = 10)
     \<and> shape ones22 = [] @ [2, 2] \<and> ((2::nat) = 2 \<or> (0::nat) < 2)
     \<and> (\<exists>y. image_quad_norm ones22 = Inr y \<and> shape y = [] \<and> item y [] = 4)"
proof -
  have s: "shape ones23 = [] @ [2, 3]" "shape ones22 = [] @ [2, 2]"
    by (simp_all add: ones23_def ones22_def astype_complex_def np_ones_def)
  have i: "item ones23 idx = 1" "item ones22 idx = 1" for idx
    by (simp_all add: ones23_def ones22_def astype_complex_def np_ones_def)
  show ?thesis
    using image_quad_norm_branches[OF s(1)] image_quad_norm_branches[OF s(2)]
    by (auto simp: i s)
qed

section \<open>The unitary forward transform\<close>




section \<open>The unitary inverse transform inverts the unitary forward transform\<close>






section \<open>Zero padding and the roll to the zero convention\<close>

text \<open>
  C9. For a call without batch axes (the rank of the impulse response, \<open>dim\<close> and the
  length of the target shape are equal), an impulse response that fits in the target
  shape and a target shape of positive extents, the buffer that \<^verbatim>\<open>ir2tf\<close> transforms
  has the target shape, and its element at an index is the element of the zero-padded
  impulse response (the impulse response in the origin corner, 0 elsewhere) at that
  index moved by \<open>floor (extent / 2)\<close> along every axis, modulo the target extent, where
  \<open>extent\<close> is the extent of the impulse response, even or odd: the padded array is
  rolled by \<open>- floor (extent / 2)\<close> along every axis. The transform is applied to
  this buffer.
\<close>

theorem ir2tf_pads_and_rolls:
  assumes "length shp = ndim x" and "ir2tf_dim x dim_arg = int (ndim x)"
    and "list_all2 (\<le>) (shape x) shp" and "list_all (\<lambda>n. 0 < n) shp"
  shows "\<exists>p. ir2tf_irpadded x shp dim_arg = Inr p \<and> shape p = shp
           \<and> (\<forall>idx. length idx = ndim x \<longrightarrow>
                 item p idx =
                   (let q = map (\<lambda>i. (idx ! i + shape x ! i div 2) mod (shp ! i)) [0..<ndim x]
                    in if list_all2 (<) q (shape x) then Re (item x q) else 0))
           \<and> ir2tf x shp dim_arg is_real =
               (if is_real then np_fft_rfftn p (py_range (- int (ndim x)) 0)
                else np_fft_fftn (astype_complex p) (py_range (- int (ndim x)) 0))"
proof -
  obtain p0 where p0: "setitem_origin (np_zeros shp) x = Inr p0" "shape p0 = shp"
    and p0i: "\<And>q. length q = ndim x \<Longrightarrow>
                  item p0 q = (if list_all2 (<) q (shape x) then Re (item x q) else 0)"
    using setitem_origin_fits[OF assms(1,3)] by blast
  have "\<exists>b. roll_axes (enumerate 0 (shape x)) 0 p0 = Inr b \<and> shape b = shape p0
           \<and> (\<forall>idx. item b idx =
                 item p0 (map (\<lambda>i. if i < length (shape x)
                                    then (idx ! i + shape x ! i div 2) mod (shape p0 ! i)
                                    else idx ! i) [0..<length idx]))"
    by (rule roll_axes_all) (use assms p0(2) in \<open>auto simp: ndim_def\<close>)
  then obtain p where p: "roll_axes (enumerate 0 (shape x)) 0 p0 = Inr p" "shape p = shp"
    and pi: "\<And>idx. item p idx =
                 item p0 (map (\<lambda>i. if i < length (shape x)
                                    then (idx ! i + shape x ! i div 2) mod (shp ! i)
                                    else idx ! i) [0..<length idx])"
    unfolding p0(2) by blast
  have irp: "ir2tf_irpadded x shp dim_arg = Inr p"
    by (simp add: ir2tf_irpadded_def p0(1) assms(2) p(1))
  have "item p idx =
          (let q = map (\<lambda>i. (idx ! i + shape x ! i div 2) mod (shp ! i)) [0..<ndim x]
           in if list_all2 (<) q (shape x) then Re (item x q) else 0)"
    if l: "length idx = ndim x" for idx
  proof -
    have "map (\<lambda>i. if i < length (shape x)
                                    then (idx ! i + shape x ! i div 2) mod (shp ! i)
                                    else idx ! i) [0..<length idx]
        = map (\<lambda>i. (idx ! i + shape x ! i div 2) mod (shp ! i)) [0..<ndim x]"
      using l by (simp add: ndim_def)
    then show ?thesis
      using pi[of idx] p0i[of "map (\<lambda>i. (idx ! i + shape x ! i div 2) mod (shp ! i)) [0..<ndim x]"]
      by (simp add: Let_def)
  qed
  then show ?thesis
    using irp p(2) by (simp add: ir2tf_def assms(2))
qed

theorem ir2tf_pads_and_rolls_witness:
  "length [5::nat] = ndim ir123 \<and> ir2tf_dim ir123 None = int (ndim ir123)
     \<and> list_all2 (\<le>) (shape ir123) [5] \<and> list_all (\<lambda>n. 0 < n) [5::nat]
     \<and> (\<exists>p. ir2tf_irpadded ir123 [5] None = Inr p \<and> shape p = [5]
           \<and> item p [0] = 2 \<and> item p [1] = 3 \<and> item p [2] = 0 \<and> item p [3] = 0
           \<and> item p [4] = 1
           \<and> ir2tf ir123 [5] None True = np_fft_rfftn p (py_range (- 1) 0))
     \<and> length [4::nat] = ndim ir12 \<and> ir2tf_dim ir12 (Some 1) = int (ndim ir12)
     \<and> list_all2 (\<le>) (shape ir12) [4] \<and> list_all (\<lambda>n. 0 < n) [4::nat]
     \<and> (\<exists>p. ir2tf_irpadded ir12 [4] (Some 1) = Inr p \<and> shape p = [4]
           \<and> item p [0] = 2 \<and> item p [1] = 0 \<and> item p [2] = 0 \<and> item p [3] = 1
           \<and> ir2tf ir12 [4] (Some 1) False
               = np_fft_fftn (astype_complex p) (py_range (- 1) 0))"
proof -
  have r: "ndim ir123 = 1" "shape ir123 = [3]" "ir2tf_dim ir123 None = 1"
    by (simp_all add: ir123_def ndim_def ir2tf_dim_def)
  have i: "item ir123 [j] = of_nat (j + 1)" for j
    by (simp add: ir123_def)
  have h: "length [5::nat] = ndim ir123" "ir2tf_dim ir123 None = int (ndim ir123)"
    "list_all2 (\<le>) (shape ir123) [5]" "list_all (\<lambda>n. 0 < n) [5::nat]"
    by (simp_all add: r)
  obtain p where p: "ir2tf_irpadded ir123 [5] None = Inr p" "shape p = [5]"
    and pi: "\<And>idx. length idx = ndim ir123 \<Longrightarrow>
                 item p idx =
                   (let q = map (\<lambda>i. (idx ! i + shape ir123 ! i div 2) mod ([5] ! i))
                              [0..<ndim ir123]
                    in if list_all2 (<) q (shape ir123) then Re (item ir123 q) else 0)"
    and t: "ir2tf ir123 [5] None True = np_fft_rfftn p (py_range (- int (ndim ir123)) 0)"
    using ir2tf_pads_and_rolls[OF h, of True] by auto
  have v: "item p [0] = 2" "item p [1] = 3" "item p [2] = 0" "item p [3] = 0" "item p [4] = 1"
    by (simp_all add: pi r i)
  have r': "ndim ir12 = 1" "shape ir12 = [2]" "ir2tf_dim ir12 (Some 1) = 1"
    by (simp_all add: ir12_def ndim_def ir2tf_dim_def)
  have i': "item ir12 [j] = of_nat (j + 1)" for j
    by (simp add: ir12_def)
  have h': "length [4::nat] = ndim ir12" "ir2tf_dim ir12 (Some 1) = int (ndim ir12)"
    "list_all2 (\<le>) (shape ir12) [4]" "list_all (\<lambda>n. 0 < n) [4::nat]"
    by (simp_all add: r')
  obtain p' where p': "ir2tf_irpadded ir12 [4] (Some 1) = Inr p'" "shape p' = [4]"
    and pi': "\<And>idx. length idx = ndim ir12 \<Longrightarrow>
                 item p' idx =
                   (let q = map (\<lambda>i. (idx ! i + shape ir12 ! i div 2) mod ([4] ! i))
                              [0..<ndim ir12]
                    in if list_all2 (<) q (shape ir12) then Re (item ir12 q) else 0)"
    and t': "ir2tf ir12 [4] (Some 1) False
               = np_fft_fftn (astype_complex p') (py_range (- int (ndim ir12)) 0)"
    using ir2tf_pads_and_rolls[OF h', of False] by auto
  have v': "item p' [0] = 2" "item p' [1] = 0" "item p' [2] = 0" "item p' [3] = 1"
    by (simp_all add: pi' r' i')
  show ?thesis using p t h v p' t' h' v' by (simp add: r r')
qed

section \<open>Several impulse responses at once\<close>

text \<open>
  C4 says that for an impulse response with batch axes \<^verbatim>\<open>ir2tf\<close> allocates the padded
  array with the batch axes put before the target shape. It allocates
  \<^verbatim>\<open>np.zeros(shape)\<close>: for three impulse responses of shape \<open>(2, 2)\<close> and the target
  shape \<open>(2, 2)\<close> the buffer has two axes, the assignment has three slices, and the
  call fails.
\<close>

theorem ir2tf_batched_needs_full_shape:
  "ir2tf ones322 [2, 2] (Some 2) True = Inl IndexError"
  by (simp add: ir2tf_def ir2tf_irpadded_def setitem_origin_def np_zeros_def ones322_def
      astype_complex_def np_ones_def ndim_def)

text \<open>
  C4, amended. \<^verbatim>\<open>ir2tf\<close> allocates the zero array with exactly the shape it is given.
  For an impulse response whose rank exceeds \<open>dim\<close> the call fails with an
  \<^verbatim>\<open>IndexError\<close> when the shape has fewer entries than the impulse response has axes;
  when the shape has one entry for every axis of the impulse response, batch axes
  included, each at least the extent of the impulse response and positive, the call
  returns, the buffer has the given shape, and the output has the given shape, except
  that with \<^verbatim>\<open>is_real\<close> its last axis has the length \<open>shape[-1] // 2 + 1\<close>.
\<close>

theorem ir2tf_batched_shape:
  assumes "ir2tf_dim x dim_arg = d" and "1 \<le> d" and "d < int (ndim x)"
  shows "(length shp < ndim x \<longrightarrow> ir2tf x shp dim_arg is_real = Inl IndexError)
       \<and> (length shp = ndim x \<and> list_all2 (\<le>) (shape x) shp \<and> list_all (\<lambda>n. 0 < n) shp \<longrightarrow>
            (\<exists>p y. ir2tf_irpadded x shp dim_arg = Inr p \<and> shape p = shp
                \<and> ir2tf x shp dim_arg is_real = Inr y
                \<and> shape y = (if is_real then shp[ndim x - 1 := shp ! (ndim x - 1) div 2 + 1]
                              else shp)))"
proof (intro conjI impI)
  assume "length shp < ndim x"
  then show "ir2tf x shp dim_arg is_real = Inl IndexError"
    by (simp add: ir2tf_def ir2tf_irpadded_def setitem_origin_too_many_indices)
next
  assume h: "length shp = ndim x \<and> list_all2 (\<le>) (shape x) shp \<and> list_all (\<lambda>n. 0 < n) shp"
  then obtain p0 where p0: "setitem_origin (np_zeros shp) x = Inr p0" "shape p0 = shp"
    using setitem_origin_fits[of shp x] by blast
  have "0 + length (shape x) \<le> ndim p0" using h p0(2) by (simp add: ndim_def)
  from roll_axes_ok[OF this, of "int (ndim x) - d"]
  obtain p where p: "roll_axes (enumerate 0 (shape x)) (int (ndim x) - d) p0 = Inr p" "shape p = shp"
    using p0(2) by auto
  have irp: "ir2tf_irpadded x shp dim_arg = Inr p"
    by (simp add: ir2tf_irpadded_def p0(1) assms(1) p(1))
  have np: "ndim p = ndim x" using h p(2) by (simp add: ndim_def)
  have d: "d \<le> int (ndim p)" "0 \<le> d" using assms np by simp_all
  have pos: "list_all (\<lambda>n. 0 < n) (shape p)" using h p(2) by simp
  have pc: "list_all (\<lambda>n. 0 < n) (shape (astype_complex p))" "ndim (astype_complex p) = ndim p"
    "shape (astype_complex p) = shp"
    using pos p(2) by (simp_all add: astype_complex_def ndim_def)
  show "\<exists>p y. ir2tf_irpadded x shp dim_arg = Inr p \<and> shape p = shp
                \<and> ir2tf x shp dim_arg is_real = Inr y
                \<and> shape y = (if is_real then shp[ndim x - 1 := shp ! (ndim x - 1) div 2 + 1]
                              else shp)"
  proof (cases is_real)
    case True
    then show ?thesis
      using np_fft_rfftn_shape[OF assms(2) d(1) pos] irp p(2) np
      by (auto simp: ir2tf_def assms(1))
  next
    case False
    then show ?thesis
      using np_fft_fftn_shape[of d "astype_complex p"] d pc irp p(2)
      by (auto simp: ir2tf_def assms(1))
  qed
qed

theorem ir2tf_batched_shape_witness:
  "ir2tf_dim ones322 (Some 2) = 2 \<and> (1::int) \<le> 2 \<and> 2 < int (ndim ones322)
     \<and> length [4, 4::nat] < ndim ones322
     \<and> ir2tf ones322 [4, 4] (Some 2) True = Inl IndexError
     \<and> length [5, 4, 4::nat] = ndim ones322 \<and> list_all2 (\<le>) (shape ones322) [5, 4, 4]
     \<and> list_all (\<lambda>n. 0 < n) [5, 4, 4::nat]
     \<and> (\<exists>p y. ir2tf_irpadded ones322 [5, 4, 4] (Some 2) = Inr p \<and> shape p = [5, 4, 4]
           \<and> ir2tf ones322 [5, 4, 4] (Some 2) True = Inr y \<and> shape y = [5, 4, 3])"
proof -
  have r: "ndim ones322 = 3" "shape ones322 = [3, 2, 2]" "ir2tf_dim ones322 (Some 2) = 2"
    by (simp_all add: ones322_def ndim_def ir2tf_dim_def astype_complex_def np_ones_def)
  have h: "(1::int) \<le> 2" "2 < int (ndim ones322)"
    by (simp_all add: r)
  show ?thesis
    using ir2tf_batched_shape[OF r(3) h, of "[4, 4]" True]
      ir2tf_batched_shape[OF r(3) h, of "[5, 4, 4]" True]
    by (simp add: r)
qed

section \<open>The quadratic norm of the full and of the compact transform\<close>








text \<open>
  Remark. A square image with an even side from 4 on is outside the statement above,
  also in exact arithmetic:
  for the real image of shape \<open>(4, 4)\<close> that is 1 at the origin the full spectrum
  has the value 1 and the compact spectrum the value \<open>5 / 4\<close>, because the compact
  formula also doubles the column at the Nyquist frequency.
\<close>

lemma image_quad_norm_even_square_differs:
  "\<exists>u v a b. ufft2 (astype_complex delta44) = Inr u \<and> urfft2 delta44 = Inr v
     \<and> image_quad_norm u = Inr a \<and> image_quad_norm v = Inr b
     \<and> item a [] = 1 \<and> item b [] = 5 / 4"
proof -
  have s: "shape delta44 = [] @ [4, 4]" "shape (astype_complex delta44) = [] @ [4, 4]"
    by (simp_all add: delta44_def astype_complex_def)
  have i: "item (astype_complex delta44) idx = complex_of_real (item delta44 idx)" for idx
    by (simp add: astype_complex_def)
  have p: "(0::nat) < 4" by simp
  obtain u where u: "ufft2 (astype_complex delta44) = Inr u" "shape u = [] @ [4, 4]"
    and ui0: "\<And>b k1 k2. length b = length ([]::nat list) \<Longrightarrow> item u (b @ [k1, k2]) =
        (\<Sum>m1<4. (\<Sum>m2<4. item (astype_complex delta44) (b @ [m1, m2]) * twiddle (- 1) 4 k2 m2)
                   * twiddle (- 1) 4 k1 m1) / complex_of_real (sqrt (real (4 * 4)))"
    using ufft2_items[OF s(2) p p] by blast
  have ui: "item u [k1, k2] = 1 / 4" for k1 k2
    using ui0[of "[]" k1 k2] unfolding i dft_delta44 by simp
  obtain v where v: "urfft2 delta44 = Inr v" "shape v = [] @ [4, 4 div 2 + 1]"
    and vi0: "\<And>b k1 k2. length b = length ([]::nat list) \<Longrightarrow> item v (b @ [k1, k2]) =
        (\<Sum>m1<4. (\<Sum>m2<4. complex_of_real (item delta44 (b @ [m1, m2])) * twiddle (- 1) 4 k2 m2)
                   * twiddle (- 1) 4 k1 m1) / complex_of_real (sqrt (real (4 * 4)))"
    using urfft2_items[OF s(1) p p] by blast
  have vi: "item v [k1, k2] = 1 / 4" for k1 k2
    using vi0[of "[]" k1 k2] unfolding dft_delta44 by simp
  have v2: "shape v = [] @ [4, 3]" using v(2) by simp
  obtain a where a: "image_quad_norm u = Inr a" "item a [] = 1"
    using image_quad_norm_eval[OF u(2)] by (auto simp: ui power_divide)
  obtain b where b: "image_quad_norm v = Inr b" "item b [] = 5 / 4"
    using image_quad_norm_eval[OF v2] by (auto simp: vi power_divide)
  show ?thesis using u v a b by blast
qed


end
